theory Spec2Isabelle
  imports Main
begin

section \<open>JSON values and the decoding rules of encoding/json\<close>

text \<open>
  The inbox decoder of \<^verbatim>\<open>reddit/message.go\<close> never looks at bytes itself: it hands them
  to \<^verbatim>\<open>json.Unmarshal\<close>, which first checks that the whole input is well-formed JSON and
  then walks the value. The model therefore starts from the parsed value. Object members
  are kept as an association list, in input order, because encoding/json processes them
  one after the other (a repeated key is stored twice, the last one winning). Keys and
  strings are the unquoted byte strings; a number keeps its literal text.
\<close>

datatype json =
    JNull
  | JBool bool
  | JNumber string
  | JString string
  | JArray "json list"
  | JObject "(string \<times> json) list"

text \<open>
  The callers in \<^verbatim>\<open>message.go\<close> only compare a decoding error with \<^verbatim>\<open>nil\<close>, so the
  different error values of encoding/json (syntax error, type mismatch, the error of an
  \<^verbatim>\<open>Unmarshaler\<close>) are one constructor. \<open>ErrorsNew\<close> is \<^verbatim>\<open>errors.New\<close>; \<open>OtherError\<close>
  stands for whatever the HTTP client reports.
\<close>

datatype error = DecodeError | ErrorsNew string | OtherError string

definition on_success :: "error + 'a \<Rightarrow> ('a \<Rightarrow> 'b) \<Rightarrow> error + 'b" where
  "on_success r f = (case r of Inl e \<Rightarrow> Inl e | Inr x \<Rightarrow> Inr (f x))"

text \<open>
  Matching an object key to a struct field: an exact match of the tag name is preferred,
  otherwise the first field whose name is equal to the key under case folding. All tag
  names of this file are ASCII, and the only non-ASCII runes that fold to an ASCII letter
  are the Kelvin sign (UTF-8 \<open>E2 84 AA\<close>, folds with k) and the long s (UTF-8 \<open>C5 BF\<close>,
  folds with s); every other byte above 127 is left as it is and can never equal a byte
  of a tag name.
\<close>

definition toUpperASCII :: "char \<Rightarrow> char" where
  "toUpperASCII c =
     (if (97::nat) \<le> of_char c \<and> of_char c \<le> (122::nat)
      then char_of (of_char c - (32::nat)) else c)"

fun foldName :: "string \<Rightarrow> string" where
  "foldName [] = []"
| "foldName (c # cs) =
     (if c = CHR 0xE2 \<and> take 2 cs = [CHR 0x84, CHR 0xAA]
        then CHR ''K'' # foldName (drop 2 cs)
      else if c = CHR 0xC5 \<and> take 1 cs = [CHR 0xBF]
        then CHR ''S'' # foldName (drop 1 cs)
      else toUpperASCII c # foldName cs)"

definition lookupField :: "string list \<Rightarrow> string \<Rightarrow> string option" where
  "lookupField names key =
     (if key \<in> set names then Some key
      else find (\<lambda>n. foldName n = foldName key) names)"

text \<open>
  Decoding the members of an object into a struct value \<open>s\<close>: members whose key matches
  no field are skipped, the others are stored by \<open>setf\<close>. encoding/json goes on after a
  type mismatch and reports it at the end; since a failed decode is only ever tested
  against \<^verbatim>\<open>nil\<close> and its target thrown away, stopping at the first error is the same.
\<close>

fun object_fields ::
  "string list \<Rightarrow> (string \<Rightarrow> json \<Rightarrow> 's \<Rightarrow> error + 's) \<Rightarrow> (string \<times> json) list \<Rightarrow> 's \<Rightarrow> error + 's"
where
  "object_fields names setf [] s = Inr s"
| "object_fields names setf ((k, v) # kvs) s =
     (case lookupField names k of
        None \<Rightarrow> object_fields names setf kvs s
      | Some f \<Rightarrow>
          (case setf f v s of
             Inl e \<Rightarrow> Inl e
           | Inr s' \<Rightarrow> object_fields names setf kvs s'))"

text \<open>
  A JSON value into a struct: \<^verbatim>\<open>null\<close> leaves the struct as it is and is no error, an
  object is decoded member by member, anything else is a type mismatch.
\<close>

definition unmarshal_struct ::
  "string list \<Rightarrow> (string \<Rightarrow> json \<Rightarrow> 's \<Rightarrow> error + 's) \<Rightarrow> json \<Rightarrow> 's \<Rightarrow> error + 's"
where
  "unmarshal_struct names setf j s =
     (case j of
        JNull \<Rightarrow> Inr s
      | JObject kvs \<Rightarrow> object_fields names setf kvs s
      | _ \<Rightarrow> Inl DecodeError)"

text \<open>A JSON value into a \<^verbatim>\<open>string\<close> and into a \<^verbatim>\<open>bool\<close>; \<open>old\<close> is the field's current value.\<close>

definition unmarshal_string :: "json \<Rightarrow> string \<Rightarrow> error + string" where
  "unmarshal_string j old =
     (case j of JString s \<Rightarrow> Inr s | JNull \<Rightarrow> Inr old | _ \<Rightarrow> Inl DecodeError)"

definition unmarshal_bool :: "json \<Rightarrow> bool \<Rightarrow> error + bool" where
  "unmarshal_bool j old =
     (case j of JBool b \<Rightarrow> Inr b | JNull \<Rightarrow> Inr old | _ \<Rightarrow> Inl DecodeError)"

text \<open>
  A JSON array into a freshly declared slice: every element is decoded into a zero value.
\<close>

fun unmarshal_elems :: "(json \<Rightarrow> error + 'a) \<Rightarrow> json list \<Rightarrow> error + 'a list" where
  "unmarshal_elems f [] = Inr []"
| "unmarshal_elems f (j # js) =
     (case f j of
        Inl e \<Rightarrow> Inl e
      | Inr x \<Rightarrow> on_success (unmarshal_elems f js) (\<lambda>xs. x # xs))"

text \<open>
  A Go slice is \<^verbatim>\<open>nil\<close> (\<open>None\<close>) or holds a sequence; \<^verbatim>\<open>make([]T, 0)\<close> is \<open>Some []\<close>.
  \<^verbatim>\<open>append\<close> accepts a nil slice.
\<close>

type_synonym 'a slice = "'a list option"

definition append_slice :: "'a slice \<Rightarrow> 'a \<Rightarrow> 'a slice" where
  "append_slice s v = (case s of None \<Rightarrow> Some [v] | Some xs \<Rightarrow> Some (xs @ [v]))"

section \<open>The types of message.go\<close>

text \<open>
  \<^verbatim>\<open>Timestamp\<close> and its \<^verbatim>\<open>UnmarshalJSON\<close> are declared in another file of the package, so
  the timestamp type is a type variable \<open>'ts\<close> and the functions below take its zero
  value \<open>ts0\<close> and its decoder \<open>tsU\<close> (current value, JSON value; \<open>None\<close> is an error)
  as parameters. \<open>Created\<close> is a pointer: \<open>None\<close> is \<^verbatim>\<open>nil\<close>.
\<close>

record 'ts Message =
  ID :: string
  FullID :: string
  Created :: "'ts option"
  Subject :: string
  Text :: string
  ParentID :: string
  Author :: string
  To :: string
  IsComment :: bool

record 'ts Messages =
  Messages :: "'ts Message slice"
  After :: string
  Before :: string

record 'ts inboxThings =
  Comments :: "'ts Message slice"
  Messages :: "'ts Message slice"

record 'ts inboxListing =
  Things :: "'ts inboxThings"
  After :: string
  Before :: string

record 'ts rootInboxListing =
  Kind :: string
  Data :: "'ts inboxListing"

text \<open>
  Modelled from the spec: the \<^verbatim>\<open>thing\<close> envelope and the kind codes, which are declared in
  another file of the package. The spec gives the envelope as
  \<open>{kind: string, data: opaque-bytes}\<close> with "t1" for a comment and "t4" for a private
  message. \<open>Data\<close> is the raw JSON of the member; \<open>None\<close> is the empty byte string of
  an envelope that has no \<open>data\<close> member.
\<close>

record thing =
  Kind :: string
  Data :: "json option"

definition kindComment :: string where
  "kindComment = ''t1''"

definition kindMessage :: string where
  "kindMessage = ''t4''"

definition new_Message :: "'ts Message" where
  "new_Message =
     \<lparr>ID = [], FullID = [], Created = None, Subject = [], Text = [], ParentID = [],
      Author = [], To = [], IsComment = False\<rparr>"

definition new_thing :: thing where
  "new_thing = \<lparr>thing.Kind = [], thing.Data = None\<rparr>"

definition new_rootInboxListing :: "'ts rootInboxListing" where
  "new_rootInboxListing =
     \<lparr>rootInboxListing.Kind = [],
      rootInboxListing.Data =
        \<lparr>Things = \<lparr>Comments = None, inboxThings.Messages = None\<rparr>,
         inboxListing.After = [], inboxListing.Before = []\<rparr>\<rparr>"

section \<open>json.Unmarshal at the types of message.go\<close>

text \<open>
  A pointer to a \<^verbatim>\<open>Timestamp\<close>: \<^verbatim>\<open>null\<close> sets the pointer to \<^verbatim>\<open>nil\<close>; any other value
  allocates a zero \<^verbatim>\<open>Timestamp\<close> when the pointer is \<^verbatim>\<open>nil\<close> and calls its decoder.
\<close>

definition unmarshal_Timestamp_ptr ::
  "('ts \<Rightarrow> json \<Rightarrow> 'ts option) \<Rightarrow> 'ts \<Rightarrow> json \<Rightarrow> 'ts option \<Rightarrow> error + 'ts option"
where
  "unmarshal_Timestamp_ptr tsU ts0 j old =
     (case j of
        JNull \<Rightarrow> Inr None
      | _ \<Rightarrow>
          (case tsU (case old of None \<Rightarrow> ts0 | Some t \<Rightarrow> t) j of
             None \<Rightarrow> Inl DecodeError
           | Some t \<Rightarrow> Inr (Some t)))"

definition Message_fields :: "string list" where
  "Message_fields =
     [''id'', ''name'', ''created_utc'', ''subject'', ''body'', ''parent_id'',
      ''author'', ''dest'', ''was_comment'']"

definition Message_set ::
  "('ts \<Rightarrow> json \<Rightarrow> 'ts option) \<Rightarrow> 'ts \<Rightarrow> string \<Rightarrow> json \<Rightarrow> 'ts Message \<Rightarrow> error + 'ts Message"
where
  "Message_set tsU ts0 f j m =
     (if f = ''id'' then on_success (unmarshal_string j (ID m)) (\<lambda>s. m\<lparr>ID := s\<rparr>)
      else if f = ''name'' then on_success (unmarshal_string j (FullID m)) (\<lambda>s. m\<lparr>FullID := s\<rparr>)
      else if f = ''created_utc'' then
        on_success (unmarshal_Timestamp_ptr tsU ts0 j (Created m)) (\<lambda>t. m\<lparr>Created := t\<rparr>)
      else if f = ''subject'' then on_success (unmarshal_string j (Subject m)) (\<lambda>s. m\<lparr>Subject := s\<rparr>)
      else if f = ''body'' then on_success (unmarshal_string j (Text m)) (\<lambda>s. m\<lparr>Text := s\<rparr>)
      else if f = ''parent_id'' then
        on_success (unmarshal_string j (ParentID m)) (\<lambda>s. m\<lparr>ParentID := s\<rparr>)
      else if f = ''author'' then on_success (unmarshal_string j (Author m)) (\<lambda>s. m\<lparr>Author := s\<rparr>)
      else if f = ''dest'' then on_success (unmarshal_string j (To m)) (\<lambda>s. m\<lparr>To := s\<rparr>)
      else if f = ''was_comment'' then
        on_success (unmarshal_bool j (IsComment m)) (\<lambda>b. m\<lparr>IsComment := b\<rparr>)
      else Inr m)"

text \<open>
  \<^verbatim>\<open>json.Unmarshal(thing.Data, v)\<close> with \<^verbatim>\<open>v := new(Message)\<close>. Empty input is a syntax
  error.
\<close>

definition json_Unmarshal_Message ::
  "('ts \<Rightarrow> json \<Rightarrow> 'ts option) \<Rightarrow> 'ts \<Rightarrow> json option \<Rightarrow> error + 'ts Message"
where
  "json_Unmarshal_Message tsU ts0 raw =
     (case raw of
        None \<Rightarrow> Inl DecodeError
      | Some j \<Rightarrow> unmarshal_struct Message_fields (Message_set tsU ts0) j new_Message)"

text \<open>
  The members of a \<^verbatim>\<open>thing\<close>: \<open>kind\<close> is a string, \<open>data\<close> is a raw message, which keeps
  the member's JSON whatever it is (\<^verbatim>\<open>null\<close> included).
\<close>

definition thing_fields :: "string list" where
  "thing_fields = [''kind'', ''data'']"

definition thing_set :: "string \<Rightarrow> json \<Rightarrow> thing \<Rightarrow> error + thing" where
  "thing_set f j th =
     (if f = ''kind'' then on_success (unmarshal_string j (thing.Kind th)) (\<lambda>s. th\<lparr>thing.Kind := s\<rparr>)
      else if f = ''data'' then Inr (th\<lparr>thing.Data := Some j\<rparr>)
      else Inr th)"

definition json_Unmarshal_thing :: "json \<Rightarrow> error + thing" where
  "json_Unmarshal_thing j = unmarshal_struct thing_fields thing_set j new_thing"

text \<open>
  \<^verbatim>\<open>json.Unmarshal(b, &things)\<close> with \<^verbatim>\<open>var things []thing\<close>: \<^verbatim>\<open>null\<close> leaves the slice
  nil, which the loop ranges over like an empty one.
\<close>

definition json_Unmarshal_things :: "json \<Rightarrow> error + thing list" where
  "json_Unmarshal_things b =
     (case b of
        JNull \<Rightarrow> Inr []
      | JArray js \<Rightarrow> unmarshal_elems json_Unmarshal_thing js
      | _ \<Rightarrow> Inl DecodeError)"

section \<open>inboxThings\<close>

definition init :: "'ts inboxThings \<Rightarrow> 'ts inboxThings" where
  "init t = t\<lparr>Comments := Some [], inboxThings.Messages := Some []\<rparr>"

text \<open>The body of the \<^verbatim>\<open>range\<close> loop of \<^verbatim>\<open>UnmarshalJSON\<close>: the switch on the kind.\<close>

definition UnmarshalJSON_step ::
  "('ts \<Rightarrow> json \<Rightarrow> 'ts option) \<Rightarrow> 'ts \<Rightarrow> 'ts inboxThings \<Rightarrow> thing \<Rightarrow> 'ts inboxThings"
where
  "UnmarshalJSON_step tsU ts0 t th =
     (if thing.Kind th = kindComment then
        (case json_Unmarshal_Message tsU ts0 (thing.Data th) of
           Inr v \<Rightarrow> t\<lparr>Comments := append_slice (Comments t) v\<rparr>
         | Inl err \<Rightarrow> t)
      else if thing.Kind th = kindMessage then
        (case json_Unmarshal_Message tsU ts0 (thing.Data th) of
           Inr v \<Rightarrow> t\<lparr>inboxThings.Messages := append_slice (inboxThings.Messages t) v\<rparr>
         | Inl err \<Rightarrow> t)
      else t)"

fun UnmarshalJSON_loop ::
  "('ts \<Rightarrow> json \<Rightarrow> 'ts option) \<Rightarrow> 'ts \<Rightarrow> 'ts inboxThings \<Rightarrow> thing list \<Rightarrow> 'ts inboxThings"
where
  "UnmarshalJSON_loop tsU ts0 t [] = t"
| "UnmarshalJSON_loop tsU ts0 t (th # things) =
     UnmarshalJSON_loop tsU ts0 (UnmarshalJSON_step tsU ts0 t th) things"

text \<open>
  \<^verbatim>\<open>UnmarshalJSON\<close> returns its error (\<open>None\<close> is \<^verbatim>\<open>nil\<close>) and the receiver as it has
  left it.
\<close>

definition UnmarshalJSON ::
  "('ts \<Rightarrow> json \<Rightarrow> 'ts option) \<Rightarrow> 'ts \<Rightarrow> 'ts inboxThings \<Rightarrow> json \<Rightarrow> error option \<times> 'ts inboxThings"
where
  "UnmarshalJSON tsU ts0 t b =
     (let t1 = init t in
      case json_Unmarshal_things b of
        Inl err \<Rightarrow> (Some err, t1)
      | Inr things \<Rightarrow> (None, UnmarshalJSON_loop tsU ts0 t1 things))"

section \<open>The listing envelope\<close>

definition inboxListing_fields :: "string list" where
  "inboxListing_fields = [''children'', ''after'', ''before'']"

text \<open>
  \<open>children\<close> is decoded by \<^verbatim>\<open>inboxThings.UnmarshalJSON\<close>, which encoding/json calls for
  every value of the member, \<^verbatim>\<open>null\<close> included; its error ends the decode.
\<close>

definition inboxListing_set ::
  "('ts \<Rightarrow> json \<Rightarrow> 'ts option) \<Rightarrow> 'ts \<Rightarrow> string \<Rightarrow> json \<Rightarrow> 'ts inboxListing \<Rightarrow> error + 'ts inboxListing"
where
  "inboxListing_set tsU ts0 f j l =
     (if f = ''children'' then
        (case UnmarshalJSON tsU ts0 (Things l) j of
           (Some err, t) \<Rightarrow> Inl err
         | (None, t) \<Rightarrow> Inr (l\<lparr>Things := t\<rparr>))
      else if f = ''after'' then
        on_success (unmarshal_string j (inboxListing.After l)) (\<lambda>s. l\<lparr>inboxListing.After := s\<rparr>)
      else if f = ''before'' then
        on_success (unmarshal_string j (inboxListing.Before l)) (\<lambda>s. l\<lparr>inboxListing.Before := s\<rparr>)
      else Inr l)"

definition rootInboxListing_fields :: "string list" where
  "rootInboxListing_fields = [''kind'', ''data'']"

definition rootInboxListing_set ::
  "('ts \<Rightarrow> json \<Rightarrow> 'ts option) \<Rightarrow> 'ts \<Rightarrow> string \<Rightarrow> json \<Rightarrow> 'ts rootInboxListing
     \<Rightarrow> error + 'ts rootInboxListing"
where
  "rootInboxListing_set tsU ts0 f j r =
     (if f = ''kind'' then
        on_success (unmarshal_string j (rootInboxListing.Kind r)) (\<lambda>s. r\<lparr>rootInboxListing.Kind := s\<rparr>)
      else if f = ''data'' then
        on_success
          (unmarshal_struct inboxListing_fields (inboxListing_set tsU ts0) j (rootInboxListing.Data r))
          (\<lambda>d. r\<lparr>rootInboxListing.Data := d\<rparr>)
      else Inr r)"

definition json_Unmarshal_rootInboxListing ::
  "('ts \<Rightarrow> json \<Rightarrow> 'ts option) \<Rightarrow> 'ts \<Rightarrow> json \<Rightarrow> 'ts rootInboxListing \<Rightarrow> error + 'ts rootInboxListing"
where
  "json_Unmarshal_rootInboxListing tsU ts0 j r =
     unmarshal_struct rootInboxListing_fields (rootInboxListing_set tsU ts0) j r"

definition getComments :: "'ts rootInboxListing \<Rightarrow> 'ts Messages" where
  "getComments l =
     \<lparr>Messages.Messages = Comments (Things (rootInboxListing.Data l)),
      Messages.After = inboxListing.After (rootInboxListing.Data l),
      Messages.Before = inboxListing.Before (rootInboxListing.Data l)\<rparr>"

definition getMessages :: "'ts rootInboxListing \<Rightarrow> 'ts Messages" where
  "getMessages l =
     \<lparr>Messages.Messages = inboxThings.Messages (Things (rootInboxListing.Data l)),
      Messages.After = inboxListing.After (rootInboxListing.Data l),
      Messages.Before = inboxListing.Before (rootInboxListing.Data l)\<rparr>"

section \<open>The HTTP client and the service methods\<close>

text \<open>
  The client (\<^verbatim>\<open>NewRequest\<close>, \<^verbatim>\<open>NewRequestWithForm\<close>, \<^verbatim>\<open>Do\<close>) and \<^verbatim>\<open>addOptions\<close> live in
  other files of the package. Requests, responses and list options are type variables,
  and the functions are fields of a record that the service methods take as a parameter.
  \<open>transport\<close> is the network: it takes the state \<open>'w\<close> of the outside world and
  returns the new one, with either an error or the response and its body. The body is
  the JSON value it parses to, \<open>None\<close> when it is not well-formed JSON.
\<close>

type_synonym Values = "string \<rightharpoonup> string list"

record ('req, 'resp, 'opts, 'w) Client =
  addOptions :: "string \<Rightarrow> 'opts \<Rightarrow> error + string"
  NewRequest :: "string \<Rightarrow> string \<Rightarrow> error + 'req"
  NewRequestWithForm :: "string \<Rightarrow> string \<Rightarrow> Values \<Rightarrow> error + 'req"
  transport :: "'req \<Rightarrow> 'w \<Rightarrow> (error + 'resp \<times> json option) \<times> 'w"

definition MethodGet :: string where
  "MethodGet = ''GET''"

definition MethodPost :: string where
  "MethodPost = ''POST''"

text \<open>
  Modelled from the spec: \<^verbatim>\<open>Client.Do\<close>, which is in another file of the package. By the
  spec's error taxonomy a transport error is surfaced unchanged and nothing is decoded;
  otherwise the response body is decoded into the target \<open>v\<close>, and a decode error is
  returned to the caller with no result. \<open>Do_nil\<close> is the call with a \<^verbatim>\<open>nil\<close> target,
  which decodes nothing.
\<close>

definition Do ::
  "('req, 'resp, 'opts, 'w) Client \<Rightarrow> 'req \<Rightarrow> (json \<Rightarrow> 'v \<Rightarrow> error + 'v) \<Rightarrow> 'v \<Rightarrow> 'w
     \<Rightarrow> (error + 'resp \<times> 'v) \<times> 'w"
where
  "Do c req decode v w =
     (case transport c req w of
        (Inl err, w') \<Rightarrow> (Inl err, w')
      | (Inr (resp, None), w') \<Rightarrow> (Inl DecodeError, w')
      | (Inr (resp, Some j), w') \<Rightarrow>
          (case decode j v of
             Inl err \<Rightarrow> (Inl err, w')
           | Inr v' \<Rightarrow> (Inr (resp, v'), w')))"

definition Do_nil ::
  "('req, 'resp, 'opts, 'w) Client \<Rightarrow> 'req \<Rightarrow> 'w \<Rightarrow> (error + 'resp) \<times> 'w"
where
  "Do_nil c req w =
     (case transport c req w of
        (Inl err, w') \<Rightarrow> (Inl err, w')
      | (Inr (resp, body), w') \<Rightarrow> (Inr resp, w'))"

text \<open>\<^verbatim>\<open>strings.Join\<close> and \<^verbatim>\<open>url.Values.Set\<close> of the Go library.\<close>

fun Join :: "string list \<Rightarrow> string \<Rightarrow> string" where
  "Join [] sep = []"
| "Join [e] sep = e"
| "Join (e # e' # elems) sep = e @ sep @ Join (e' # elems) sep"

definition Values_Set :: "Values \<Rightarrow> string \<Rightarrow> string \<Rightarrow> Values" where
  "Values_Set form key val = form(key \<mapsto> [val])"

text \<open>
  The four methods that take a variadic list of ids. The context argument is dropped:
  it only reaches the transport.
\<close>

definition Read ::
  "('req, 'resp, 'opts, 'w) Client \<Rightarrow> string list \<Rightarrow> 'w \<Rightarrow> (error + 'resp) \<times> 'w"
where
  "Read c ids w =
     (if length ids = 0 then (Inl (ErrorsNew ''must provide at least 1 id''), w)
      else
        let path = ''api/read_message'';
            form = Values_Set Map.empty ''id'' (Join ids '','')
        in case NewRequestWithForm c MethodPost path form of
             Inl err \<Rightarrow> (Inl err, w)
           | Inr req \<Rightarrow> Do_nil c req w)"

definition Unread ::
  "('req, 'resp, 'opts, 'w) Client \<Rightarrow> string list \<Rightarrow> 'w \<Rightarrow> (error + 'resp) \<times> 'w"
where
  "Unread c ids w =
     (if length ids = 0 then (Inl (ErrorsNew ''must provide at least 1 id''), w)
      else
        let path = ''api/unread_message'';
            form = Values_Set Map.empty ''id'' (Join ids '','')
        in case NewRequestWithForm c MethodPost path form of
             Inl err \<Rightarrow> (Inl err, w)
           | Inr req \<Rightarrow> Do_nil c req w)"

definition Collapse ::
  "('req, 'resp, 'opts, 'w) Client \<Rightarrow> string list \<Rightarrow> 'w \<Rightarrow> (error + 'resp) \<times> 'w"
where
  "Collapse c ids w =
     (if length ids = 0 then (Inl (ErrorsNew ''must provide at least 1 id''), w)
      else
        let path = ''api/collapse_message'';
            form = Values_Set Map.empty ''id'' (Join ids '','')
        in case NewRequestWithForm c MethodPost path form of
             Inl err \<Rightarrow> (Inl err, w)
           | Inr req \<Rightarrow> Do_nil c req w)"

definition Uncollapse ::
  "('req, 'resp, 'opts, 'w) Client \<Rightarrow> string list \<Rightarrow> 'w \<Rightarrow> (error + 'resp) \<times> 'w"
where
  "Uncollapse c ids w =
     (if length ids = 0 then (Inl (ErrorsNew ''must provide at least 1 id''), w)
      else
        let path = ''api/uncollapse_message'';
            form = Values_Set Map.empty ''id'' (Join ids '','')
        in case NewRequestWithForm c MethodPost path form of
             Inl err \<Rightarrow> (Inl err, w)
           | Inr req \<Rightarrow> Do_nil c req w)"

text \<open>
  \<^verbatim>\<open>inbox\<close>: the decode entry point of the inbox listings. On any error it returns no
  listing.
\<close>

definition inbox ::
  "('req, 'resp, 'opts, 'w) Client \<Rightarrow> ('ts \<Rightarrow> json \<Rightarrow> 'ts option) \<Rightarrow> 'ts \<Rightarrow> string \<Rightarrow> 'opts \<Rightarrow> 'w
     \<Rightarrow> (error + 'ts rootInboxListing \<times> 'resp) \<times> 'w"
where
  "inbox c tsU ts0 path opts w =
     (case addOptions c path opts of
        Inl err \<Rightarrow> (Inl err, w)
      | Inr path' \<Rightarrow>
          (case NewRequest c MethodGet path' of
             Inl err \<Rightarrow> (Inl err, w)
           | Inr req \<Rightarrow>
               (case Do c req (json_Unmarshal_rootInboxListing tsU ts0) new_rootInboxListing w of
                  (Inl err, w') \<Rightarrow> (Inl err, w')
                | (Inr (resp, root), w') \<Rightarrow> (Inr (root, resp), w'))))"

text \<open>\<^verbatim>\<open>Inbox\<close> returns the comments view, the messages view and the response.\<close>

definition Inbox ::
  "('req, 'resp, 'opts, 'w) Client \<Rightarrow> ('ts \<Rightarrow> json \<Rightarrow> 'ts option) \<Rightarrow> 'ts \<Rightarrow> 'opts \<Rightarrow> 'w
     \<Rightarrow> (error + 'ts Messages \<times> 'ts Messages \<times> 'resp) \<times> 'w"
where
  "Inbox c tsU ts0 opts w =
     (case inbox c tsU ts0 ''message/inbox'' opts w of
        (Inl err, w') \<Rightarrow> (Inl err, w')
      | (Inr (root, resp), w') \<Rightarrow> (Inr (getComments root, getMessages root, resp), w'))"

section \<open>Reference notions for the properties\<close>

text \<open>
  The bucket of a kind as the specification words it: the children of that kind whose
  payload decodes, in the order of the array, each one decoded.
\<close>

definition payload_valid ::
  "('ts \<Rightarrow> json \<Rightarrow> 'ts option) \<Rightarrow> 'ts \<Rightarrow> string \<Rightarrow> thing \<Rightarrow> bool"
where
  "payload_valid tsU ts0 k th =
     (thing.Kind th = k \<and>
      (case json_Unmarshal_Message tsU ts0 (thing.Data th) of Inl e \<Rightarrow> False | Inr m \<Rightarrow> True))"

definition decoded :: "('ts \<Rightarrow> json \<Rightarrow> 'ts option) \<Rightarrow> 'ts \<Rightarrow> thing \<Rightarrow> 'ts Message" where
  "decoded tsU ts0 th =
     (case json_Unmarshal_Message tsU ts0 (thing.Data th) of Inl e \<Rightarrow> new_Message | Inr m \<Rightarrow> m)"

definition bucket_spec ::
  "('ts \<Rightarrow> json \<Rightarrow> 'ts option) \<Rightarrow> 'ts \<Rightarrow> string \<Rightarrow> thing list \<Rightarrow> 'ts Message list"
where
  "bucket_spec tsU ts0 k things = map (decoded tsU ts0) (filter (payload_valid tsU ts0 k) things)"

text \<open>
  The value of \<open>was_comment\<close> in a payload object: the last boolean stored under a key
  that matches the tag, \<open>b\<close> (the zero value \<open>False\<close> for a new message) when there is
  none.
\<close>

fun was_comment_payload :: "bool \<Rightarrow> (string \<times> json) list \<Rightarrow> bool" where
  "was_comment_payload b [] = b"
| "was_comment_payload b ((k, v) # kvs) =
     was_comment_payload
       (if lookupField Message_fields k = Some ''was_comment''
        then (case v of JBool b' \<Rightarrow> b' | _ \<Rightarrow> b) else b)
       kvs"

text \<open>
  A malformed envelope: the body is neither an object nor \<^verbatim>\<open>null\<close>, or a \<open>data\<close> member
  is neither an object nor \<^verbatim>\<open>null\<close>, or a \<open>children\<close> member of a \<open>data\<close> object is
  neither an array nor \<^verbatim>\<open>null\<close>.
\<close>

definition children_malformed :: "json \<Rightarrow> bool" where
  "children_malformed j = (case j of JNull \<Rightarrow> False | JArray js \<Rightarrow> False | _ \<Rightarrow> True)"

definition data_malformed :: "json \<Rightarrow> bool" where
  "data_malformed d =
     (case d of
        JNull \<Rightarrow> False
      | JObject kvs \<Rightarrow>
          list_ex (\<lambda>(k, v). lookupField inboxListing_fields k = Some ''children'' \<and> children_malformed v) kvs
      | _ \<Rightarrow> True)"

definition envelope_malformed :: "json \<Rightarrow> bool" where
  "envelope_malformed body =
     (case body of
        JNull \<Rightarrow> False
      | JObject kvs \<Rightarrow>
          list_ex (\<lambda>(k, v). lookupField rootInboxListing_fields k = Some ''data'' \<and> data_malformed v) kvs
      | _ \<Rightarrow> True)"

text \<open>An envelope with a \<open>data\<close> object that has a \<open>children\<close> member.\<close>

definition data_has_children :: "json \<Rightarrow> bool" where
  "data_has_children d =
     (case d of
        JObject kvs \<Rightarrow> list_ex (\<lambda>(k, v). lookupField inboxListing_fields k = Some ''children'') kvs
      | _ \<Rightarrow> False)"

definition envelope_has_children :: "json \<Rightarrow> bool" where
  "envelope_has_children body =
     (case body of
        JObject kvs \<Rightarrow>
          list_ex (\<lambda>(k, v). lookupField rootInboxListing_fields k = Some ''data'' \<and> data_has_children v) kvs
      | _ \<Rightarrow> False)"

text \<open>Both buckets of a listing are slices that have been made.\<close>

definition buckets_made :: "'ts inboxListing \<Rightarrow> bool" where
  "buckets_made l = (Comments (Things l) \<noteq> None \<and> inboxThings.Messages (Things l) \<noteq> None)"

section \<open>Sample inputs\<close>

text \<open>
  The scenario of the specification: a comment reply, a private message and a child of
  an unknown kind on one page, with the cursor \<open>next1\<close>. The sample timestamp is the
  literal text of a JSON number. The canned client answers every request with status 200
  and a fixed body, and counts the requests it has sent.
\<close>

definition child :: "string \<Rightarrow> json \<Rightarrow> json" where
  "child k d = JObject [(''kind'', JString k), (''data'', d)]"

definition sample_tsU :: "string \<Rightarrow> json \<Rightarrow> string option" where
  "sample_tsU t j = (case j of JNumber n \<Rightarrow> Some n | _ \<Rightarrow> None)"

definition canned_client :: "json option \<Rightarrow> (string \<times> string, nat, unit, nat) Client" where
  "canned_client body =
     \<lparr>addOptions = (\<lambda>path opts. Inr path),
      NewRequest = (\<lambda>method path. Inr (method, path)),
      NewRequestWithForm = (\<lambda>method path form. Inr (method, path)),
      transport = (\<lambda>req w. (Inr (200, body), Suc w))\<rparr>"

definition scenario_children :: json where
  "scenario_children =
     JArray [child ''t1'' (JObject [(''id'', JString ''c1''), (''was_comment'', JBool True)]),
             child ''t4'' (JObject [(''id'', JString ''m1''), (''was_comment'', JBool False)]),
             child ''t9'' (JObject [])]"

definition scenario_body :: json where
  "scenario_body =
     JObject [(''kind'', JString ''Listing''),
              (''data'', JObject [(''children'', scenario_children),
                                  (''after'', JString ''next1''), (''before'', JString [])])]"

definition scenario_comment :: "string Message" where
  "scenario_comment = new_Message\<lparr>ID := ''c1'', IsComment := True\<rparr>"

definition scenario_message :: "string Message" where
  "scenario_message = new_Message\<lparr>ID := ''m1''\<rparr>"

definition scenario_listing :: "string rootInboxListing" where
  "scenario_listing =
     \<lparr>rootInboxListing.Kind = ''Listing'',
      rootInboxListing.Data =
        \<lparr>Things = \<lparr>Comments = Some [scenario_comment], inboxThings.Messages = Some [scenario_message]\<rparr>,
         inboxListing.After = ''next1'', inboxListing.Before = []\<rparr>\<rparr>"

section \<open>Auxiliary facts\<close>

subsection \<open>Slices, loops and arrays\<close>

lemma init_buckets: "init t = \<lparr>Comments = Some [], inboxThings.Messages = Some []\<rparr>"
  by (simp add: init_def)

lemma UnmarshalJSON_loop_append:
  "UnmarshalJSON_loop tsU ts0 t (xs @ ys) =
     UnmarshalJSON_loop tsU ts0 (UnmarshalJSON_loop tsU ts0 t xs) ys"
  by (induction xs arbitrary: t) simp_all

lemma unmarshal_elems_append:
  "unmarshal_elems f (xs @ ys) =
     (case unmarshal_elems f xs of
        Inl e \<Rightarrow> Inl e
      | Inr as \<Rightarrow> on_success (unmarshal_elems f ys) (\<lambda>bs. as @ bs))"
proof (induction xs)
  case Nil
  show ?case by (simp add: on_success_def split: sum.splits)
next
  case (Cons x xs)
  show ?case
    by (simp add: Cons.IH on_success_def split: sum.splits)
qed

lemma lookup_exact: "f \<in> set names \<Longrightarrow> lookupField names f = Some f"
  by (simp add: lookupField_def)

lemma things_of_array:
  "json_Unmarshal_things (JArray js) = unmarshal_elems json_Unmarshal_thing js"
  by (simp add: json_Unmarshal_things_def)

lemma kinds_distinct: "kindComment \<noteq> kindMessage"
  by (simp add: kindComment_def kindMessage_def)

lemma step_unrecognized:
  "thing.Kind th \<noteq> kindComment \<Longrightarrow> thing.Kind th \<noteq> kindMessage \<Longrightarrow>
   UnmarshalJSON_step tsU ts0 t th = t"
  by (simp add: UnmarshalJSON_step_def)

lemma step_undecodable:
  "json_Unmarshal_Message tsU ts0 (thing.Data th) = Inl e \<Longrightarrow> UnmarshalJSON_step tsU ts0 t th = t"
  by (simp add: UnmarshalJSON_step_def)

lemma step_buckets:
  "UnmarshalJSON_step tsU ts0 \<lparr>Comments = Some cs, inboxThings.Messages = Some ms\<rparr> th =
     \<lparr>Comments = Some (cs @ bucket_spec tsU ts0 kindComment [th]),
      inboxThings.Messages = Some (ms @ bucket_spec tsU ts0 kindMessage [th])\<rparr>"
  using kinds_distinct
  by (auto simp: UnmarshalJSON_step_def bucket_spec_def payload_valid_def decoded_def
      append_slice_def split: sum.splits)

lemma bucket_spec_Cons:
  "bucket_spec tsU ts0 k (th # things) = bucket_spec tsU ts0 k [th] @ bucket_spec tsU ts0 k things"
  by (simp add: bucket_spec_def)

lemma loop_buckets:
  "UnmarshalJSON_loop tsU ts0 \<lparr>Comments = Some cs, inboxThings.Messages = Some ms\<rparr> things =
     \<lparr>Comments = Some (cs @ bucket_spec tsU ts0 kindComment things),
      inboxThings.Messages = Some (ms @ bucket_spec tsU ts0 kindMessage things)\<rparr>"
proof (induction things arbitrary: cs ms)
  case Nil
  show ?case by (simp add: bucket_spec_def)
next
  case (Cons th things)
  have "UnmarshalJSON_loop tsU ts0 \<lparr>Comments = Some cs, inboxThings.Messages = Some ms\<rparr> (th # things) =
        UnmarshalJSON_loop tsU ts0
          \<lparr>Comments = Some (cs @ bucket_spec tsU ts0 kindComment [th]),
           inboxThings.Messages = Some (ms @ bucket_spec tsU ts0 kindMessage [th])\<rparr> things"
    by (simp add: step_buckets)
  also have "\<dots> =
        \<lparr>Comments = Some ((cs @ bucket_spec tsU ts0 kindComment [th]) @ bucket_spec tsU ts0 kindComment things),
         inboxThings.Messages =
           Some ((ms @ bucket_spec tsU ts0 kindMessage [th]) @ bucket_spec tsU ts0 kindMessage things)\<rparr>"
    by (rule Cons.IH)
  finally show ?case
    by (simp add: bucket_spec_Cons [of tsU ts0 _ th things])
qed

lemma skip_child:
  assumes c: "json_Unmarshal_thing c = Inr th"
    and skip: "\<And>t'. UnmarshalJSON_step tsU ts0 t' th = t'"
  shows "UnmarshalJSON tsU ts0 t (JArray (xs @ c # ys)) = UnmarshalJSON tsU ts0 t (JArray (xs @ ys))"
proof (cases "unmarshal_elems json_Unmarshal_thing xs")
  case (Inl e)
  then show ?thesis
    by (simp add: UnmarshalJSON_def things_of_array unmarshal_elems_append)
next
  case xs: (Inr as)
  show ?thesis
  proof (cases "unmarshal_elems json_Unmarshal_thing ys")
    case (Inl e)
    with xs c show ?thesis
      by (simp add: UnmarshalJSON_def things_of_array unmarshal_elems_append on_success_def)
  next
    case (Inr bs)
    with xs c show ?thesis
      by (simp add: UnmarshalJSON_def things_of_array unmarshal_elems_append on_success_def
          UnmarshalJSON_loop_append skip)
  qed
qed

lemma UnmarshalJSON_ok_buckets:
  assumes "UnmarshalJSON tsU ts0 t b = (None, t')"
  shows "Comments t' \<noteq> None \<and> inboxThings.Messages t' \<noteq> None"
proof (cases "json_Unmarshal_things b")
  case (Inl e)
  with assms show ?thesis
    by (simp add: UnmarshalJSON_def)
next
  case (Inr things)
  with assms have "t' = UnmarshalJSON_loop tsU ts0 \<lparr>Comments = Some [], inboxThings.Messages = Some []\<rparr> things"
    by (simp add: UnmarshalJSON_def init_buckets)
  then show ?thesis
    by (simp add: loop_buckets)
qed

subsection \<open>Every decoding error is a decode error\<close>

lemma on_success_Inl: "on_success r f = Inl e \<longleftrightarrow> r = Inl e"
  by (simp add: on_success_def split: sum.splits)

lemma on_success_Inr: "on_success r f = Inr y \<longleftrightarrow> (\<exists>x. r = Inr x \<and> y = f x)"
  by (auto simp: on_success_def split: sum.splits)

lemma unmarshal_string_error: "unmarshal_string j old = Inl e \<Longrightarrow> e = DecodeError"
  by (simp add: unmarshal_string_def split: json.splits)

lemma object_fields_error:
  assumes "\<And>f v s e. setf f v s = Inl e \<Longrightarrow> e = DecodeError"
  shows "object_fields names setf kvs s = Inl e \<Longrightarrow> e = DecodeError"
proof (induction kvs arbitrary: s)
  case Nil
  then show ?case by simp
next
  case (Cons kv kvs)
  obtain k v where kv: "kv = (k, v)" by (cases kv)
  from Cons.prems show ?case
    unfolding kv
    by (auto split: option.splits sum.splits dest: assms Cons.IH)
qed

lemma unmarshal_struct_error:
  assumes setf: "\<And>f v s e. setf f v s = Inl e \<Longrightarrow> e = DecodeError"
    and fails: "unmarshal_struct names setf j s = Inl e"
  shows "e = DecodeError"
proof (cases j)
  case (JObject kvs)
  with fails have "object_fields names setf kvs s = Inl e"
    by (simp add: unmarshal_struct_def)
  with setf show ?thesis
    by (rule object_fields_error)
qed (use fails in \<open>simp_all add: unmarshal_struct_def\<close>)

lemma thing_set_error: "thing_set f v th = Inl e \<Longrightarrow> e = DecodeError"
  by (auto simp: thing_set_def on_success_Inl split: if_splits dest: unmarshal_string_error)

lemma unmarshal_elems_error:
  assumes "\<And>j e. f j = Inl e \<Longrightarrow> e = DecodeError"
  shows "unmarshal_elems f js = Inl e \<Longrightarrow> e = DecodeError"
  by (induction js arbitrary: e) (auto simp: on_success_Inl split: sum.splits dest: assms)

lemma json_Unmarshal_thing_error: "json_Unmarshal_thing j = Inl e \<Longrightarrow> e = DecodeError"
  unfolding json_Unmarshal_thing_def using thing_set_error by (rule unmarshal_struct_error)

lemma json_Unmarshal_things_error:
  assumes "json_Unmarshal_things b = Inl e"
  shows "e = DecodeError"
proof (cases b)
  case (JArray js)
  with assms have "unmarshal_elems json_Unmarshal_thing js = Inl e"
    by (simp add: json_Unmarshal_things_def)
  with json_Unmarshal_thing_error show ?thesis
    by (rule unmarshal_elems_error)
qed (use assms in \<open>simp_all add: json_Unmarshal_things_def\<close>)

lemma UnmarshalJSON_error: "UnmarshalJSON tsU ts0 t b = (Some e, t') \<Longrightarrow> e = DecodeError"
  by (auto simp: UnmarshalJSON_def Let_def split: sum.splits dest: json_Unmarshal_things_error)

lemma inboxListing_set_error: "inboxListing_set tsU ts0 f v l = Inl e \<Longrightarrow> e = DecodeError"
  by (auto simp: inboxListing_set_def on_success_Inl
      split: if_splits prod.splits option.splits
      dest: unmarshal_string_error UnmarshalJSON_error)

lemma rootInboxListing_set_error:
  assumes "rootInboxListing_set tsU ts0 f v r = Inl e"
  shows "e = DecodeError"
proof -
  have "unmarshal_struct inboxListing_fields (inboxListing_set tsU ts0) v d = Inl e' \<Longrightarrow>
        e' = DecodeError" for d e'
    using inboxListing_set_error by (rule unmarshal_struct_error)
  with assms show ?thesis
    by (auto simp: rootInboxListing_set_def on_success_Inl split: if_splits
        dest: unmarshal_string_error)
qed

lemma root_error: "json_Unmarshal_rootInboxListing tsU ts0 j r = Inl e \<Longrightarrow> e = DecodeError"
  unfolding json_Unmarshal_rootInboxListing_def
  using rootInboxListing_set_error by (rule unmarshal_struct_error)

subsection \<open>Members that make the decode fail, members that make the buckets\<close>

lemma object_fields_fails:
  assumes bad: "\<And>k v. Q (k, v) \<Longrightarrow> \<exists>f. lookupField names k = Some f \<and> (\<forall>s. \<exists>e. setf f v s = Inl e)"
  shows "list_ex Q kvs \<Longrightarrow> \<exists>e. object_fields names setf kvs s = Inl e"
proof (induction kvs arbitrary: s)
  case Nil
  then show ?case by simp
next
  case (Cons kv kvs)
  obtain k v where kv: "kv = (k, v)" by (cases kv)
  show ?case
  proof (cases "Q (k, v)")
    case True
    from bad [OF True] obtain f where f: "lookupField names k = Some f"
      and all: "\<forall>s'. \<exists>e. setf f v s' = Inl e"
      by blast
    from all obtain e where "setf f v s = Inl e"
      by blast
    with f show ?thesis
      unfolding kv by simp
  next
    case False
    with Cons.prems have "list_ex Q kvs" by (simp add: kv)
    then have "\<exists>e. object_fields names setf kvs s' = Inl e" for s'
      by (rule Cons.IH)
    then show ?thesis
      unfolding kv by (auto split: option.splits sum.splits)
  qed
qed

lemma children_malformed_fails:
  "children_malformed v \<Longrightarrow> \<exists>e. inboxListing_set tsU ts0 ''children'' v l = Inl e"
  by (auto simp: children_malformed_def inboxListing_set_def UnmarshalJSON_def
      json_Unmarshal_things_def split: json.splits)

lemma data_malformed_fails:
  assumes "data_malformed d"
  shows "\<exists>e. rootInboxListing_set tsU ts0 ''data'' d r = Inl e"
proof (cases d)
  case (JObject kvs)
  with assms have "list_ex (\<lambda>(k, v). lookupField inboxListing_fields k = Some ''children''
      \<and> children_malformed v) kvs"
    by (simp add: data_malformed_def)
  then have "\<exists>e. object_fields inboxListing_fields (inboxListing_set tsU ts0) kvs
      (rootInboxListing.Data r) = Inl e"
    by (rule object_fields_fails [rotated]) (auto dest: children_malformed_fails)
  then show ?thesis
    by (auto simp: rootInboxListing_set_def unmarshal_struct_def JObject on_success_def)
qed (use assms in \<open>auto simp: data_malformed_def rootInboxListing_set_def unmarshal_struct_def
      on_success_def\<close>)

lemma envelope_malformed_fails:
  assumes "envelope_malformed body"
  shows "json_Unmarshal_rootInboxListing tsU ts0 body r = Inl DecodeError"
proof -
  have "\<exists>e. json_Unmarshal_rootInboxListing tsU ts0 body r = Inl e"
  proof (cases body)
    case (JObject kvs)
    with assms have "list_ex (\<lambda>(k, v). lookupField rootInboxListing_fields k = Some ''data''
        \<and> data_malformed v) kvs"
      by (simp add: envelope_malformed_def)
    then have "\<exists>e. object_fields rootInboxListing_fields (rootInboxListing_set tsU ts0) kvs r = Inl e"
      by (rule object_fields_fails [rotated]) (auto dest: data_malformed_fails)
    then show ?thesis
      by (simp add: json_Unmarshal_rootInboxListing_def unmarshal_struct_def JObject)
  qed (use assms in \<open>auto simp: envelope_malformed_def json_Unmarshal_rootInboxListing_def
        unmarshal_struct_def\<close>)
  then show ?thesis
    by (auto dest: root_error)
qed

lemma object_fields_establishes:
  assumes pres: "\<And>f v s s'. setf f v s = Inr s' \<Longrightarrow> P s \<Longrightarrow> P s'"
    and est: "\<And>k v f s s'. Q (k, v) \<Longrightarrow> lookupField names k = Some f \<Longrightarrow> setf f v s = Inr s' \<Longrightarrow> P s'"
    and found: "\<And>k v. Q (k, v) \<Longrightarrow> lookupField names k \<noteq> None"
  shows "object_fields names setf kvs s = Inr s' \<Longrightarrow> P s \<or> list_ex Q kvs \<Longrightarrow> P s'"
proof (induction kvs arbitrary: s)
  case Nil
  then show ?case by simp
next
  case (Cons kv kvs)
  obtain k v where kv: "kv = (k, v)" by (cases kv)
  show ?case
  proof (cases "lookupField names k")
    case None
    with found [of k v] have "\<not> Q (k, v)" by blast
    with Cons.prems(2) have "P s \<or> list_ex Q kvs" by (simp add: kv)
    moreover from Cons.prems(1) None have "object_fields names setf kvs s = Inr s'"
      by (simp add: kv)
    ultimately show ?thesis by (rule Cons.IH [rotated])
  next
    case (Some f)
    with Cons.prems(1) obtain s1 where s1: "setf f v s = Inr s1"
      and rest: "object_fields names setf kvs s1 = Inr s'"
      by (auto simp: kv split: sum.splits)
    have "P s1 \<or> list_ex Q kvs"
    proof (cases "P s")
      case True
      with s1 show ?thesis by (blast intro: pres)
    next
      case False
      show ?thesis
      proof (cases "Q (k, v)")
        case True
        from est [OF True Some s1] show ?thesis by simp
      next
        case nq: False
        with False Cons.prems(2) show ?thesis by (simp add: kv)
      qed
    qed
    with rest show ?thesis by (rule Cons.IH)
  qed
qed

lemma inboxListing_set_keeps:
  "inboxListing_set tsU ts0 f v l = Inr l' \<Longrightarrow> buckets_made l \<Longrightarrow> buckets_made l'"
  by (auto simp: inboxListing_set_def buckets_made_def on_success_Inr
      split: if_splits prod.splits option.splits dest: UnmarshalJSON_ok_buckets)

lemma inboxListing_set_children:
  "inboxListing_set tsU ts0 ''children'' v l = Inr l' \<Longrightarrow> buckets_made l'"
  by (auto simp: inboxListing_set_def buckets_made_def
      split: prod.splits option.splits dest: UnmarshalJSON_ok_buckets)

lemma data_object_buckets:
  assumes "object_fields inboxListing_fields (inboxListing_set tsU ts0) kvs l = Inr l'"
    and "buckets_made l \<or>
         list_ex (\<lambda>(k, v). lookupField inboxListing_fields k = Some ''children'') kvs"
  shows "buckets_made l'"
  using assms
proof (rule object_fields_establishes [rotated 3])
  show "\<And>f v s s'. inboxListing_set tsU ts0 f v s = Inr s' \<Longrightarrow> buckets_made s \<Longrightarrow> buckets_made s'"
    by (rule inboxListing_set_keeps)
  show "\<And>k v f s s'. (case (k, v) of (k, v) \<Rightarrow> lookupField inboxListing_fields k = Some ''children'') \<Longrightarrow>
      lookupField inboxListing_fields k = Some f \<Longrightarrow>
      inboxListing_set tsU ts0 f v s = Inr s' \<Longrightarrow> buckets_made s'"
    by (auto dest: inboxListing_set_children)
  show "\<And>k v. (case (k, v) of (k, v) \<Rightarrow> lookupField inboxListing_fields k = Some ''children'') \<Longrightarrow>
      lookupField inboxListing_fields k \<noteq> None"
    by simp
qed

lemma rootInboxListing_set_keeps:
  assumes "rootInboxListing_set tsU ts0 f v r = Inr r'"
    and "buckets_made (rootInboxListing.Data r)"
  shows "buckets_made (rootInboxListing.Data r')"
  using assms
  by (auto simp: rootInboxListing_set_def on_success_Inr unmarshal_struct_def
      split: if_splits json.splits dest: data_object_buckets)

lemma rootInboxListing_set_data:
  assumes "rootInboxListing_set tsU ts0 ''data'' v r = Inr r'"
    and "data_has_children v"
  shows "buckets_made (rootInboxListing.Data r')"
  using assms
  by (auto simp: rootInboxListing_set_def on_success_Inr unmarshal_struct_def data_has_children_def
      split: json.splits dest: data_object_buckets)

lemma envelope_buckets:
  assumes ok: "json_Unmarshal_rootInboxListing tsU ts0 body r = Inr l"
    and children: "envelope_has_children body"
  shows "buckets_made (rootInboxListing.Data l)"
proof -
  from children obtain kvs where body: "body = JObject kvs"
    and ex: "list_ex (\<lambda>(k, v). lookupField rootInboxListing_fields k = Some ''data''
        \<and> data_has_children v) kvs"
    by (auto simp: envelope_has_children_def split: json.splits)
  from ok have "object_fields rootInboxListing_fields (rootInboxListing_set tsU ts0) kvs r = Inr l"
    by (simp add: json_Unmarshal_rootInboxListing_def unmarshal_struct_def body)
  moreover from ex have "buckets_made (rootInboxListing.Data r) \<or>
      list_ex (\<lambda>(k, v). lookupField rootInboxListing_fields k = Some ''data''
        \<and> data_has_children v) kvs"
    by simp
  ultimately show ?thesis
  proof (rule object_fields_establishes [where P = "\<lambda>r. buckets_made (rootInboxListing.Data r)", rotated 3])
    show "\<And>f v s s'. rootInboxListing_set tsU ts0 f v s = Inr s' \<Longrightarrow>
        buckets_made (rootInboxListing.Data s) \<Longrightarrow> buckets_made (rootInboxListing.Data s')"
      by (rule rootInboxListing_set_keeps)
    show "\<And>k v f s s'. (case (k, v) of (k, v) \<Rightarrow> lookupField rootInboxListing_fields k = Some ''data''
          \<and> data_has_children v) \<Longrightarrow>
        lookupField rootInboxListing_fields k = Some f \<Longrightarrow>
        rootInboxListing_set tsU ts0 f v s = Inr s' \<Longrightarrow> buckets_made (rootInboxListing.Data s')"
      by (auto dest: rootInboxListing_set_data)
    show "\<And>k v. (case (k, v) of (k, v) \<Rightarrow> lookupField rootInboxListing_fields k = Some ''data''
          \<and> data_has_children v) \<Longrightarrow>
        lookupField rootInboxListing_fields k \<noteq> None"
      by simp
  qed
qed

subsection \<open>The comment flag, joining, the scenario\<close>

lemma Message_set_other:
  "f \<noteq> ''was_comment'' \<Longrightarrow> Message_set tsU ts0 f v m = Inr m' \<Longrightarrow> IsComment m' = IsComment m"
  by (auto simp: Message_set_def on_success_Inr split: if_splits)

lemma Message_set_was_comment:
  "Message_set tsU ts0 ''was_comment'' v m = Inr m' \<Longrightarrow>
   IsComment m' = (case v of JBool b \<Rightarrow> b | _ \<Rightarrow> IsComment m)"
  by (auto simp: Message_set_def on_success_Inr unmarshal_bool_def split: json.splits)

lemma object_fields_IsComment:
  "object_fields Message_fields (Message_set tsU ts0) kvs m0 = Inr m \<Longrightarrow>
   IsComment m = was_comment_payload (IsComment m0) kvs"
proof (induction kvs arbitrary: m0)
  case Nil
  then show ?case by simp
next
  case (Cons kv kvs)
  obtain k v where kv: "kv = (k, v)" by (cases kv)
  show ?case
  proof (cases "lookupField Message_fields k")
    case None
    with Cons.prems have "object_fields Message_fields (Message_set tsU ts0) kvs m0 = Inr m"
      by (simp add: kv)
    then have "IsComment m = was_comment_payload (IsComment m0) kvs"
      by (rule Cons.IH)
    with None show ?thesis by (simp add: kv)
  next
    case (Some f)
    with Cons.prems obtain m1 where m1: "Message_set tsU ts0 f v m0 = Inr m1"
      and rest: "object_fields Message_fields (Message_set tsU ts0) kvs m1 = Inr m"
      by (auto simp: kv split: sum.splits)
    from rest have IH: "IsComment m = was_comment_payload (IsComment m1) kvs"
      by (rule Cons.IH)
    show ?thesis
    proof (cases "f = ''was_comment''")
      case True
      with m1 have "IsComment m1 = (case v of JBool b \<Rightarrow> b | _ \<Rightarrow> IsComment m0)"
        by (simp add: Message_set_was_comment)
      with IH Some True show ?thesis by (simp add: kv)
    next
      case False
      with m1 have "IsComment m1 = IsComment m0"
        by (simp add: Message_set_other)
      with IH Some False show ?thesis by (simp add: kv)
    qed
  qed
qed

lemma Join_Cons: "Join (e # elems) sep = e @ concat (map (\<lambda>x. sep @ x) elems)"
  by (induction elems arbitrary: e) simp_all

lemmas decode_defs =
  lookupField_def unmarshal_struct_def unmarshal_string_def unmarshal_bool_def on_success_def
  append_slice_def new_Message_def new_thing_def new_rootInboxListing_def Message_fields_def
  Message_set_def json_Unmarshal_Message_def thing_fields_def thing_set_def
  json_Unmarshal_thing_def json_Unmarshal_things_def init_def UnmarshalJSON_step_def
  UnmarshalJSON_def kindComment_def kindMessage_def inboxListing_fields_def inboxListing_set_def
  rootInboxListing_fields_def rootInboxListing_set_def json_Unmarshal_rootInboxListing_def
  getComments_def getMessages_def

lemmas scenario_defs =
  child_def sample_tsU_def canned_client_def scenario_children_def scenario_body_def
  scenario_comment_def scenario_message_def scenario_listing_def

lemma scenario_decodes:
  "json_Unmarshal_rootInboxListing sample_tsU [] scenario_body new_rootInboxListing =
     Inr scenario_listing"
  by (simp add: decode_defs scenario_defs)

section \<open>The claims\<close>

text \<open>
  C1. When the children array parses as an array of things and the payload of one child
  does not decode into a \<open>Message\<close>, that child alone is dropped: \<open>UnmarshalJSON\<close>
  returns no error, and its result is the one it gives for the array without that child,
  so every other child is in its bucket as before.
\<close>

theorem undecodable_child_is_dropped:
  assumes batch: "json_Unmarshal_things (JArray (xs @ c # ys)) = Inr things"
    and c: "json_Unmarshal_thing c = Inr th"
    and bad: "json_Unmarshal_Message tsU ts0 (thing.Data th) = Inl e"
  shows "fst (UnmarshalJSON tsU ts0 t (JArray (xs @ c # ys))) = None
         \<and> UnmarshalJSON tsU ts0 t (JArray (xs @ c # ys)) = UnmarshalJSON tsU ts0 t (JArray (xs @ ys))"
proof
  show "fst (UnmarshalJSON tsU ts0 t (JArray (xs @ c # ys))) = None"
    using batch by (simp add: UnmarshalJSON_def)
  show "UnmarshalJSON tsU ts0 t (JArray (xs @ c # ys)) = UnmarshalJSON tsU ts0 t (JArray (xs @ ys))"
    using c by (rule skip_child) (simp add: step_undecodable [OF bad])
qed

text \<open>
  C1 at the second scenario of the specification: a comment whose payload is the string
  \<open>not-an-object\<close>, followed by a valid comment.
\<close>

theorem undecodable_child_is_dropped_witness:
  "json_Unmarshal_things
     (JArray ([] @ child ''t1'' (JString ''not-an-object'')
                 # [child ''t1'' (JObject [(''id'', JString ''c1'')])])) =
     Inr [\<lparr>thing.Kind = ''t1'', thing.Data = Some (JString ''not-an-object'')\<rparr>,
          \<lparr>thing.Kind = ''t1'', thing.Data = Some (JObject [(''id'', JString ''c1'')])\<rparr>]
   \<and> json_Unmarshal_thing (child ''t1'' (JString ''not-an-object'')) =
       Inr \<lparr>thing.Kind = ''t1'', thing.Data = Some (JString ''not-an-object'')\<rparr>
   \<and> json_Unmarshal_Message sample_tsU []
         (thing.Data \<lparr>thing.Kind = ''t1'', thing.Data = Some (JString ''not-an-object'')\<rparr>) =
       Inl DecodeError
   \<and> UnmarshalJSON sample_tsU [] \<lparr>Comments = None, inboxThings.Messages = None\<rparr>
         (JArray ([] @ child ''t1'' (JString ''not-an-object'')
                     # [child ''t1'' (JObject [(''id'', JString ''c1'')])])) =
       (None, \<lparr>Comments = Some [new_Message\<lparr>ID := ''c1''\<rparr>], inboxThings.Messages = Some []\<rparr>)"
proof -
  let ?c = "child ''t1'' (JString ''not-an-object'')"
  let ?v = "child ''t1'' (JObject [(''id'', JString ''c1'')])"
  let ?th = "\<lparr>thing.Kind = ''t1'', thing.Data = Some (JString ''not-an-object'')\<rparr>"
  have batch: "json_Unmarshal_things (JArray ([] @ ?c # [?v])) =
      Inr [?th, \<lparr>thing.Kind = ''t1'', thing.Data = Some (JObject [(''id'', JString ''c1'')])\<rparr>]"
    by (simp add: decode_defs scenario_defs)
  have c: "json_Unmarshal_thing ?c = Inr ?th"
    by (simp add: decode_defs scenario_defs)
  have bad: "json_Unmarshal_Message sample_tsU [] (thing.Data ?th) = Inl DecodeError"
    by (simp add: decode_defs)
  have rest: "UnmarshalJSON sample_tsU [] \<lparr>Comments = None, inboxThings.Messages = None\<rparr>
      (JArray ([] @ [?v])) =
      (None, \<lparr>Comments = Some [new_Message\<lparr>ID := ''c1''\<rparr>], inboxThings.Messages = Some []\<rparr>)"
    by (simp add: decode_defs scenario_defs)
  from undecodable_child_is_dropped [OF batch c bad, of "\<lparr>Comments = None, inboxThings.Messages = None\<rparr>"]
    batch c bad rest
  show ?thesis by simp
qed

text \<open>
  C2. When the children array parses, \<open>UnmarshalJSON\<close> returns no error, the bucket of
  each recognized kind is exactly the children of that kind with a decodable payload,
  decoded, in the order of the array; a bucket has as many items as there are such
  children (K), which is at most the number of children (N).
\<close>

theorem buckets_hold_valid_children_in_order:
  assumes "json_Unmarshal_things b = Inr things"
  shows "UnmarshalJSON tsU ts0 t b =
           (None, \<lparr>Comments = Some (bucket_spec tsU ts0 kindComment things),
                   inboxThings.Messages = Some (bucket_spec tsU ts0 kindMessage things)\<rparr>)
         \<and> length (bucket_spec tsU ts0 k things) =
             length (filter (payload_valid tsU ts0 k) things)
         \<and> length (filter (payload_valid tsU ts0 k) things) \<le> length things"
proof -
  have "UnmarshalJSON tsU ts0 t b =
          (None, UnmarshalJSON_loop tsU ts0 \<lparr>Comments = Some [], inboxThings.Messages = Some []\<rparr> things)"
    using assms by (simp add: UnmarshalJSON_def init_buckets)
  then show ?thesis
    by (simp add: loop_buckets bucket_spec_def)
qed

text \<open>C2 at the children of the first scenario.\<close>

theorem buckets_hold_valid_children_in_order_witness:
  "json_Unmarshal_things scenario_children =
     Inr [\<lparr>thing.Kind = ''t1'',
           thing.Data = Some (JObject [(''id'', JString ''c1''), (''was_comment'', JBool True)])\<rparr>,
          \<lparr>thing.Kind = ''t4'',
           thing.Data = Some (JObject [(''id'', JString ''m1''), (''was_comment'', JBool False)])\<rparr>,
          \<lparr>thing.Kind = ''t9'', thing.Data = Some (JObject [])\<rparr>]
   \<and> UnmarshalJSON sample_tsU [] \<lparr>Comments = None, inboxThings.Messages = None\<rparr> scenario_children =
       (None, \<lparr>Comments = Some [scenario_comment], inboxThings.Messages = Some [scenario_message]\<rparr>)"
proof -
  let ?things = "[\<lparr>thing.Kind = ''t1'',
           thing.Data = Some (JObject [(''id'', JString ''c1''), (''was_comment'', JBool True)])\<rparr>,
          \<lparr>thing.Kind = ''t4'',
           thing.Data = Some (JObject [(''id'', JString ''m1''), (''was_comment'', JBool False)])\<rparr>,
          \<lparr>thing.Kind = ''t9'', thing.Data = Some (JObject [])\<rparr>]"
  have parsed: "json_Unmarshal_things scenario_children = Inr ?things"
    by (simp add: decode_defs scenario_defs)
  have comments: "bucket_spec sample_tsU [] kindComment ?things = [scenario_comment]"
    by (simp add: bucket_spec_def payload_valid_def decoded_def decode_defs scenario_defs)
  have messages: "bucket_spec sample_tsU [] kindMessage ?things = [scenario_message]"
    by (simp add: bucket_spec_def payload_valid_def decoded_def decode_defs scenario_defs)
  from buckets_hold_valid_children_in_order [OF parsed, of sample_tsU "[]"
      "\<lparr>Comments = None, inboxThings.Messages = None\<rparr>" kindComment]
    parsed comments messages
  show ?thesis by simp
qed

text \<open>
  C3. For a decoded listing of the wire shape, with any strings \<open>a\<close> and \<open>b\<close> as cursors
  (the empty string included), the comments view and the messages view both carry
  exactly \<open>a\<close> as \<open>After\<close> and \<open>b\<close> as \<open>Before\<close>; and for every listing \<open>l'\<close> the
  two views carry the envelope's own \<open>After\<close> and \<open>Before\<close>, unchanged.
\<close>

theorem views_share_envelope_cursors:
  assumes "json_Unmarshal_rootInboxListing tsU ts0
             (JObject [(''kind'', kj),
                       (''data'', JObject [(''children'', cs),
                                           (''after'', JString a), (''before'', JString b)])])
             new_rootInboxListing = Inr l"
  shows "Messages.After (getComments l) = a \<and> Messages.Before (getComments l) = b
       \<and> Messages.After (getMessages l) = a \<and> Messages.Before (getMessages l) = b
       \<and> Messages.After (getComments l') = inboxListing.After (rootInboxListing.Data l')
       \<and> Messages.Before (getComments l') = inboxListing.Before (rootInboxListing.Data l')
       \<and> Messages.After (getMessages l') = inboxListing.After (rootInboxListing.Data l')
       \<and> Messages.Before (getMessages l') = inboxListing.Before (rootInboxListing.Data l')"
proof -
  from assms have "inboxListing.After (rootInboxListing.Data l) = a
      \<and> inboxListing.Before (rootInboxListing.Data l) = b"
    by (auto simp: json_Unmarshal_rootInboxListing_def unmarshal_struct_def lookup_exact
        rootInboxListing_fields_def rootInboxListing_set_def inboxListing_fields_def
        inboxListing_set_def unmarshal_string_def on_success_def
        split: sum.splits prod.splits option.splits)
  then show ?thesis
    by (simp add: getComments_def getMessages_def)
qed

text \<open>C3 at the first scenario: both views report \<open>next1\<close> and the empty string.\<close>

theorem views_share_envelope_cursors_witness:
  "json_Unmarshal_rootInboxListing sample_tsU []
     (JObject [(''kind'', JString ''Listing''),
               (''data'', JObject [(''children'', scenario_children),
                                   (''after'', JString ''next1''), (''before'', JString [])])])
     new_rootInboxListing = Inr scenario_listing
   \<and> Messages.After (getComments scenario_listing) = ''next1''
   \<and> Messages.Before (getComments scenario_listing) = []
   \<and> Messages.After (getMessages scenario_listing) = ''next1''
   \<and> Messages.Before (getMessages scenario_listing) = []"
proof -
  have decoded: "json_Unmarshal_rootInboxListing sample_tsU []
     (JObject [(''kind'', JString ''Listing''),
               (''data'', JObject [(''children'', scenario_children),
                                   (''after'', JString ''next1''), (''before'', JString [])])])
     new_rootInboxListing = Inr scenario_listing"
    using scenario_decodes by (simp add: scenario_body_def)
  from views_share_envelope_cursors [OF decoded, of scenario_listing] decoded
  show ?thesis by simp
qed

text \<open>
  C4. A child that parses as a thing and whose kind is neither the comment code nor the
  message code is dropped: \<open>UnmarshalJSON\<close> gives, error and buckets alike, what it gives
  for the array without that child. So the unknown kind never makes the batch fail, and
  the children before and after it are decoded as usual.
\<close>

theorem unknown_kind_is_dropped:
  assumes c: "json_Unmarshal_thing c = Inr th"
    and "thing.Kind th \<noteq> kindComment" and "thing.Kind th \<noteq> kindMessage"
  shows "UnmarshalJSON tsU ts0 t (JArray (xs @ c # ys)) = UnmarshalJSON tsU ts0 t (JArray (xs @ ys))"
  using c by (rule skip_child) (simp add: step_unrecognized assms)

text \<open>C4 with a child of kind \<open>t9\<close> between a comment and a message.\<close>

theorem unknown_kind_is_dropped_witness:
  "json_Unmarshal_thing (child ''t9'' (JObject [])) =
     Inr \<lparr>thing.Kind = ''t9'', thing.Data = Some (JObject [])\<rparr>
   \<and> thing.Kind \<lparr>thing.Kind = ''t9'', thing.Data = Some (JObject [])\<rparr> \<noteq> kindComment
   \<and> thing.Kind \<lparr>thing.Kind = ''t9'', thing.Data = Some (JObject [])\<rparr> \<noteq> kindMessage
   \<and> UnmarshalJSON sample_tsU [] \<lparr>Comments = None, inboxThings.Messages = None\<rparr>
         (JArray ([child ''t1'' (JObject [(''id'', JString ''c1'')])]
                  @ child ''t9'' (JObject []) # [child ''t4'' (JObject [(''id'', JString ''m1'')])])) =
       (None, \<lparr>Comments = Some [new_Message\<lparr>ID := ''c1''\<rparr>],
               inboxThings.Messages = Some [new_Message\<lparr>ID := ''m1''\<rparr>]\<rparr>)"
proof -
  let ?th = "\<lparr>thing.Kind = ''t9'', thing.Data = Some (JObject [])\<rparr>"
  have c: "json_Unmarshal_thing (child ''t9'' (JObject [])) = Inr ?th"
    by (simp add: decode_defs scenario_defs)
  have k1: "thing.Kind ?th \<noteq> kindComment"
    by (simp add: kindComment_def)
  have k4: "thing.Kind ?th \<noteq> kindMessage"
    by (simp add: kindMessage_def)
  have rest: "UnmarshalJSON sample_tsU [] \<lparr>Comments = None, inboxThings.Messages = None\<rparr>
         (JArray ([child ''t1'' (JObject [(''id'', JString ''c1'')])]
                  @ [child ''t4'' (JObject [(''id'', JString ''m1'')])])) =
       (None, \<lparr>Comments = Some [new_Message\<lparr>ID := ''c1''\<rparr>],
               inboxThings.Messages = Some [new_Message\<lparr>ID := ''m1''\<rparr>]\<rparr>)"
    by (simp add: decode_defs scenario_defs)
  from unknown_kind_is_dropped [OF c k1 k4, of sample_tsU "[]"
      "\<lparr>Comments = None, inboxThings.Messages = None\<rparr>"
      "[child ''t1'' (JObject [(''id'', JString ''c1'')])]"
      "[child ''t4'' (JObject [(''id'', JString ''m1'')])]"]
    c k1 k4 rest
  show ?thesis by simp
qed

text \<open>
  C5 as stated does not hold: a body with no \<open>data\<close> member at all decodes without an
  error, to a listing of zero values, and so does a \<open>data\<close> object whose \<open>children\<close> is
  \<^verbatim>\<open>null\<close>, which is not an array.
\<close>

theorem missing_data_is_no_error:
  "inbox (canned_client (Some (JObject [(''kind'', JString ''Listing'')]))) sample_tsU []
     ''message/inbox'' () 0 =
     (Inr (\<lparr>rootInboxListing.Kind = ''Listing'',
            rootInboxListing.Data =
              \<lparr>Things = \<lparr>Comments = None, inboxThings.Messages = None\<rparr>,
               inboxListing.After = [], inboxListing.Before = []\<rparr>\<rparr>, 200), Suc 0)
   \<and> inbox (canned_client (Some (JObject [(''kind'', JString ''Listing''),
                                          (''data'', JObject [(''children'', JNull)])])))
       sample_tsU [] ''message/inbox'' () 0 =
     (Inr (\<lparr>rootInboxListing.Kind = ''Listing'',
            rootInboxListing.Data =
              \<lparr>Things = \<lparr>Comments = Some [], inboxThings.Messages = Some []\<rparr>,
               inboxListing.After = [], inboxListing.Before = []\<rparr>\<rparr>, 200), Suc 0)"
  by (simp add: inbox_def Do_def decode_defs scenario_defs)

text \<open>
  C5, amended. When the envelope is malformed in the sense that the body is neither an
  object nor \<^verbatim>\<open>null\<close>, or a \<open>data\<close> member is neither an object nor \<^verbatim>\<open>null\<close>, or a
  \<open>children\<close> member is neither an array nor \<^verbatim>\<open>null\<close>, the decode entry point \<open>inbox\<close>
  returns a decode error and no listing.
\<close>

theorem malformed_envelope_is_an_error:
  assumes "envelope_malformed body"
    and "addOptions c path opts = Inr p"
    and "NewRequest c MethodGet p = Inr req"
    and "transport c req w = (Inr (resp, Some body), w')"
  shows "inbox c tsU ts0 path opts w = (Inl DecodeError, w')"
  using assms(2-4) envelope_malformed_fails [OF assms(1), of tsU ts0 new_rootInboxListing]
  by (simp add: inbox_def Do_def)

text \<open>C5, amended, at a body whose \<open>children\<close> is a string.\<close>

theorem malformed_envelope_is_an_error_witness:
  "envelope_malformed
     (JObject [(''kind'', JString ''Listing''), (''data'', JObject [(''children'', JString ''oops'')])])
   \<and> addOptions (canned_client (Some (JObject [(''kind'', JString ''Listing''),
         (''data'', JObject [(''children'', JString ''oops'')])]))) ''message/inbox'' () =
       Inr ''message/inbox''
   \<and> NewRequest (canned_client (Some (JObject [(''kind'', JString ''Listing''),
         (''data'', JObject [(''children'', JString ''oops'')])]))) MethodGet ''message/inbox'' =
       Inr (MethodGet, ''message/inbox'')
   \<and> transport (canned_client (Some (JObject [(''kind'', JString ''Listing''),
         (''data'', JObject [(''children'', JString ''oops'')])]))) (MethodGet, ''message/inbox'') 0 =
       (Inr (200, Some (JObject [(''kind'', JString ''Listing''),
         (''data'', JObject [(''children'', JString ''oops'')])])), Suc 0)
   \<and> inbox (canned_client (Some (JObject [(''kind'', JString ''Listing''),
         (''data'', JObject [(''children'', JString ''oops'')])]))) sample_tsU []
         ''message/inbox'' () 0 =
       (Inl DecodeError, Suc 0)"
proof -
  let ?body = "JObject [(''kind'', JString ''Listing''),
      (''data'', JObject [(''children'', JString ''oops'')])]"
  have bad: "envelope_malformed ?body"
    by (simp add: envelope_malformed_def data_malformed_def children_malformed_def lookupField_def
        rootInboxListing_fields_def inboxListing_fields_def)
  have a: "addOptions (canned_client (Some ?body)) ''message/inbox'' () = Inr ''message/inbox''"
    by (simp add: canned_client_def)
  have n: "NewRequest (canned_client (Some ?body)) MethodGet ''message/inbox'' =
      Inr (MethodGet, ''message/inbox'')"
    by (simp add: canned_client_def)
  have t: "transport (canned_client (Some ?body)) (MethodGet, ''message/inbox'') 0 =
      (Inr (200, Some ?body), Suc 0)"
    by (simp add: canned_client_def)
  from malformed_envelope_is_an_error [OF bad a n t, of sample_tsU "[]"] bad a n t
  show ?thesis by simp
qed

text \<open>
  C6. For an empty children array \<open>UnmarshalJSON\<close> returns no error and both buckets are
  made, empty slices, whatever the receiver held before; and a payload of the wire shape
  with an empty children array decodes to a listing whose buckets are both made and empty.
\<close>

theorem empty_children_empty_buckets:
  "UnmarshalJSON tsU ts0 t (JArray []) =
     (None, \<lparr>Comments = Some [], inboxThings.Messages = Some []\<rparr>)
   \<and> json_Unmarshal_rootInboxListing tsU ts0
       (JObject [(''kind'', JString k),
                 (''data'', JObject [(''children'', JArray []),
                                     (''after'', JString a), (''before'', JString b)])])
       new_rootInboxListing =
     Inr \<lparr>rootInboxListing.Kind = k,
          rootInboxListing.Data =
            \<lparr>Things = \<lparr>Comments = Some [], inboxThings.Messages = Some []\<rparr>,
             inboxListing.After = a, inboxListing.Before = b\<rparr>\<rparr>"
proof
  show "UnmarshalJSON tsU ts0 t (JArray []) =
     (None, \<lparr>Comments = Some [], inboxThings.Messages = Some []\<rparr>)"
    by (simp add: UnmarshalJSON_def json_Unmarshal_things_def init_buckets)
next
  have children: "UnmarshalJSON tsU ts0 t' (JArray []) =
      (None, \<lparr>Comments = Some [], inboxThings.Messages = Some []\<rparr>)" for t'
    by (simp add: UnmarshalJSON_def json_Unmarshal_things_def init_buckets)
  show "json_Unmarshal_rootInboxListing tsU ts0
       (JObject [(''kind'', JString k),
                 (''data'', JObject [(''children'', JArray []),
                                     (''after'', JString a), (''before'', JString b)])])
       new_rootInboxListing =
     Inr \<lparr>rootInboxListing.Kind = k,
          rootInboxListing.Data =
            \<lparr>Things = \<lparr>Comments = Some [], inboxThings.Messages = Some []\<rparr>,
             inboxListing.After = a, inboxListing.Before = b\<rparr>\<rparr>"
    by (simp add: json_Unmarshal_rootInboxListing_def unmarshal_struct_def lookup_exact
        rootInboxListing_fields_def rootInboxListing_set_def inboxListing_fields_def
        inboxListing_set_def children unmarshal_string_def on_success_def
        new_rootInboxListing_def)
qed

text \<open>
  C7 as stated does not hold: a response whose \<open>data\<close> object has no \<open>children\<close> member
  is decoded without an error and returned by \<open>inbox\<close> with both buckets \<^verbatim>\<open>nil\<close>.
\<close>

theorem missing_children_leaves_nil_buckets:
  "inbox (canned_client (Some (JObject [(''kind'', JString ''Listing''),
       (''data'', JObject [(''after'', JString ''next1''), (''before'', JString [])])])))
     sample_tsU [] ''message/inbox'' () 0 =
     (Inr (\<lparr>rootInboxListing.Kind = ''Listing'',
            rootInboxListing.Data =
              \<lparr>Things = \<lparr>Comments = None, inboxThings.Messages = None\<rparr>,
               inboxListing.After = ''next1'', inboxListing.Before = []\<rparr>\<rparr>, 200), Suc 0)
   \<and> Messages.Messages (getComments
         \<lparr>rootInboxListing.Kind = ''Listing'',
          rootInboxListing.Data =
            \<lparr>Things = \<lparr>Comments = None, inboxThings.Messages = None\<rparr>,
             inboxListing.After = ''next1'', inboxListing.Before = []\<rparr>\<rparr>) = (None :: string Message slice)
   \<and> Messages.Messages (getMessages
         \<lparr>rootInboxListing.Kind = ''Listing'',
          rootInboxListing.Data =
            \<lparr>Things = \<lparr>Comments = None, inboxThings.Messages = None\<rparr>,
             inboxListing.After = ''next1'', inboxListing.Before = []\<rparr>\<rparr>) = (None :: string Message slice)"
  by (simp add: inbox_def Do_def decode_defs scenario_defs)

text \<open>
  C7, amended. When the response body has a \<open>data\<close> object with a \<open>children\<close> member and
  \<open>inbox\<close> returns a listing, both buckets of the listing, and so the sequences of both
  views, are made slices, also for a kind with no match.
\<close>

theorem buckets_made_when_children_present:
  assumes "envelope_has_children body"
    and "addOptions c path opts = Inr p"
    and "NewRequest c MethodGet p = Inr req"
    and "transport c req w = (Inr (resp, Some body), w')"
    and "inbox c tsU ts0 path opts w = (Inr (l, resp'), w'')"
  shows "Comments (Things (rootInboxListing.Data l)) \<noteq> None
       \<and> inboxThings.Messages (Things (rootInboxListing.Data l)) \<noteq> None
       \<and> Messages.Messages (getComments l) \<noteq> None
       \<and> Messages.Messages (getMessages l) \<noteq> None"
proof -
  from assms(2-5) have "json_Unmarshal_rootInboxListing tsU ts0 body new_rootInboxListing = Inr l"
    by (simp add: inbox_def Do_def split: sum.splits)
  then have "buckets_made (rootInboxListing.Data l)"
    using assms(1) by (rule envelope_buckets)
  then show ?thesis
    by (simp add: buckets_made_def getComments_def getMessages_def)
qed

text \<open>C7, amended, at the first scenario.\<close>

theorem buckets_made_when_children_present_witness:
  "envelope_has_children scenario_body
   \<and> addOptions (canned_client (Some scenario_body)) ''message/inbox'' () = Inr ''message/inbox''
   \<and> NewRequest (canned_client (Some scenario_body)) MethodGet ''message/inbox'' =
       Inr (MethodGet, ''message/inbox'')
   \<and> transport (canned_client (Some scenario_body)) (MethodGet, ''message/inbox'') 0 =
       (Inr (200, Some scenario_body), Suc 0)
   \<and> inbox (canned_client (Some scenario_body)) sample_tsU [] ''message/inbox'' () 0 =
       (Inr (scenario_listing, 200), Suc 0)
   \<and> Messages.Messages (getComments scenario_listing) \<noteq> None
   \<and> Messages.Messages (getMessages scenario_listing) \<noteq> None"
proof -
  have h: "envelope_has_children scenario_body"
    by (simp add: envelope_has_children_def data_has_children_def lookupField_def
        rootInboxListing_fields_def inboxListing_fields_def scenario_body_def)
  have a: "addOptions (canned_client (Some scenario_body)) ''message/inbox'' () = Inr ''message/inbox''"
    by (simp add: canned_client_def)
  have n: "NewRequest (canned_client (Some scenario_body)) MethodGet ''message/inbox'' =
      Inr (MethodGet, ''message/inbox'')"
    by (simp add: canned_client_def)
  have t: "transport (canned_client (Some scenario_body)) (MethodGet, ''message/inbox'') 0 =
      (Inr (200, Some scenario_body), Suc 0)"
    by (simp add: canned_client_def)
  have i: "inbox (canned_client (Some scenario_body)) sample_tsU [] ''message/inbox'' () 0 =
      (Inr (scenario_listing, 200), Suc 0)"
    by (simp add: inbox_def Do_def a n t scenario_decodes)
  from buckets_made_when_children_present [OF h a n t i] h a n t i
  show ?thesis by simp
qed

text \<open>
  C8 as stated does not hold: a comment-kind child whose payload says
  \<open>was_comment: false\<close> is in the comments bucket with \<open>IsComment = False\<close>, and a
  message-kind child whose payload says \<open>was_comment: true\<close> is in the messages bucket
  with \<open>IsComment = True\<close>.
\<close>

theorem IsComment_not_derived_from_kind:
  "UnmarshalJSON sample_tsU [] \<lparr>Comments = None, inboxThings.Messages = None\<rparr>
     (JArray [child ''t1'' (JObject [(''id'', JString ''c1''), (''was_comment'', JBool False)]),
              child ''t4'' (JObject [(''id'', JString ''m1''), (''was_comment'', JBool True)])]) =
     (None,
      \<lparr>Comments =
         Some [\<lparr>ID = ''c1'', FullID = [], Created = None, Subject = [], Text = [], ParentID = [],
                Author = [], To = [], IsComment = False\<rparr>],
       inboxThings.Messages =
         Some [\<lparr>ID = ''m1'', FullID = [], Created = None, Subject = [], Text = [], ParentID = [],
                Author = [], To = [], IsComment = True\<rparr>]\<rparr>)"
  by (simp add: decode_defs scenario_defs)

text \<open>
  C8, amended. A child whose payload is an object that decodes to \<open>m\<close> yields the same
  \<open>m\<close> for either kind, appended to the comments bucket for the comment code and to the
  messages bucket for the message code; \<open>IsComment m\<close> is the value of the payload's
  \<open>was_comment\<close> member (\<open>False\<close> when there is none), whichever kind matched.
\<close>

theorem IsComment_read_from_payload:
  assumes "thing.Data th = Some (JObject kvs)"
    and "json_Unmarshal_Message tsU ts0 (thing.Data th) = Inr m"
  shows "IsComment m = was_comment_payload False kvs
       \<and> UnmarshalJSON_step tsU ts0 t th =
           (if thing.Kind th = kindComment then t\<lparr>Comments := append_slice (Comments t) m\<rparr>
            else if thing.Kind th = kindMessage
              then t\<lparr>inboxThings.Messages := append_slice (inboxThings.Messages t) m\<rparr>
            else t)"
proof
  from assms have "object_fields Message_fields (Message_set tsU ts0) kvs new_Message = Inr m"
    by (simp add: json_Unmarshal_Message_def unmarshal_struct_def)
  then have "IsComment m = was_comment_payload (IsComment (new_Message :: 'a Message)) kvs"
    by (rule object_fields_IsComment)
  then show "IsComment m = was_comment_payload False kvs"
    by (simp add: new_Message_def)
  show "UnmarshalJSON_step tsU ts0 t th =
           (if thing.Kind th = kindComment then t\<lparr>Comments := append_slice (Comments t) m\<rparr>
            else if thing.Kind th = kindMessage
              then t\<lparr>inboxThings.Messages := append_slice (inboxThings.Messages t) m\<rparr>
            else t)"
    using assms(2) by (simp add: UnmarshalJSON_step_def)
qed

text \<open>C8, amended, at a private message whose payload says \<open>was_comment: true\<close>.\<close>

theorem IsComment_read_from_payload_witness:
  "thing.Data \<lparr>thing.Kind = ''t4'',
       thing.Data = Some (JObject [(''id'', JString ''m1''), (''was_comment'', JBool True)])\<rparr> =
     Some (JObject [(''id'', JString ''m1''), (''was_comment'', JBool True)])
   \<and> json_Unmarshal_Message sample_tsU []
       (thing.Data \<lparr>thing.Kind = ''t4'',
          thing.Data = Some (JObject [(''id'', JString ''m1''), (''was_comment'', JBool True)])\<rparr>) =
       Inr (new_Message\<lparr>ID := ''m1'', IsComment := True\<rparr>)
   \<and> IsComment (new_Message\<lparr>ID := ''m1'', IsComment := True\<rparr> :: string Message) =
       was_comment_payload False [(''id'', JString ''m1''), (''was_comment'', JBool True)]
   \<and> UnmarshalJSON_step sample_tsU [] \<lparr>Comments = Some [], inboxThings.Messages = Some []\<rparr>
       \<lparr>thing.Kind = ''t4'',
        thing.Data = Some (JObject [(''id'', JString ''m1''), (''was_comment'', JBool True)])\<rparr> =
       \<lparr>Comments = Some [],
        inboxThings.Messages = Some [new_Message\<lparr>ID := ''m1'', IsComment := True\<rparr>]\<rparr>"
proof -
  let ?kvs = "[(''id'', JString ''m1''), (''was_comment'', JBool True)]"
  let ?th = "\<lparr>thing.Kind = ''t4'', thing.Data = Some (JObject ?kvs)\<rparr>"
  have d: "thing.Data ?th = Some (JObject ?kvs)"
    by simp
  have m: "json_Unmarshal_Message sample_tsU [] (thing.Data ?th) =
      Inr (new_Message\<lparr>ID := ''m1'', IsComment := True\<rparr>)"
    by (simp add: decode_defs)
  note payload = IsComment_read_from_payload [OF d m, of "\<lparr>Comments = Some [], inboxThings.Messages = Some []\<rparr>"]
  have flag: "IsComment (new_Message\<lparr>ID := ''m1'', IsComment := True\<rparr> :: string Message) =
      was_comment_payload False ?kvs"
    by (rule payload [THEN conjunct1])
  have step: "UnmarshalJSON_step sample_tsU [] \<lparr>Comments = Some [], inboxThings.Messages = Some []\<rparr> ?th =
      \<lparr>Comments = Some [],
       inboxThings.Messages = Some [new_Message\<lparr>ID := ''m1'', IsComment := True\<rparr>]\<rparr>"
    using payload [THEN conjunct2]
    by (simp add: kindComment_def kindMessage_def append_slice_def)
  show ?thesis
    by (intro conjI d m flag step)
qed

text \<open>
  C9. The result of \<open>UnmarshalJSON\<close>, error and buckets, is a function of the input
  alone: it is the same for any two receivers, and decoding the same input again into the
  receiver that the first decode has left gives the same result once more.
\<close>

theorem UnmarshalJSON_ignores_receiver:
  "UnmarshalJSON tsU ts0 t b = UnmarshalJSON tsU ts0 t' b
   \<and> UnmarshalJSON tsU ts0 (snd (UnmarshalJSON tsU ts0 t b)) b = UnmarshalJSON tsU ts0 t b"
  by (simp add: UnmarshalJSON_def init_buckets)

text \<open>
  C10. With no ids, \<open>Read\<close>, \<open>Unread\<close>, \<open>Collapse\<close> and \<open>Uncollapse\<close> return the error
  "must provide at least 1 id" whatever the client is and leave the outside world as it
  was: no request is built or sent. With at least one id the only request is built by
  \<open>NewRequestWithForm\<close> from a form whose single field \<open>id\<close> holds the one value
  \<open>Join ids '',''\<close>, the first id followed by each further id behind a comma.
\<close>

theorem ids_required_and_comma_joined:
  "Read c [] w = (Inl (ErrorsNew ''must provide at least 1 id''), w)
   \<and> Unread c [] w = (Inl (ErrorsNew ''must provide at least 1 id''), w)
   \<and> Collapse c [] w = (Inl (ErrorsNew ''must provide at least 1 id''), w)
   \<and> Uncollapse c [] w = (Inl (ErrorsNew ''must provide at least 1 id''), w)
   \<and> Read c (i # ids) w =
       (case NewRequestWithForm c ''POST'' ''api/read_message'' [''id'' \<mapsto> [Join (i # ids) '','']] of
          Inl err \<Rightarrow> (Inl err, w) | Inr req \<Rightarrow> Do_nil c req w)
   \<and> Unread c (i # ids) w =
       (case NewRequestWithForm c ''POST'' ''api/unread_message'' [''id'' \<mapsto> [Join (i # ids) '','']] of
          Inl err \<Rightarrow> (Inl err, w) | Inr req \<Rightarrow> Do_nil c req w)
   \<and> Collapse c (i # ids) w =
       (case NewRequestWithForm c ''POST'' ''api/collapse_message'' [''id'' \<mapsto> [Join (i # ids) '','']] of
          Inl err \<Rightarrow> (Inl err, w) | Inr req \<Rightarrow> Do_nil c req w)
   \<and> Uncollapse c (i # ids) w =
       (case NewRequestWithForm c ''POST'' ''api/uncollapse_message'' [''id'' \<mapsto> [Join (i # ids) '','']] of
          Inl err \<Rightarrow> (Inl err, w) | Inr req \<Rightarrow> Do_nil c req w)
   \<and> Join (i # ids) '','' = i @ concat (map (\<lambda>x. '','' @ x) ids)"
  by (simp add: Read_def Unread_def Collapse_def Uncollapse_def Values_Set_def MethodPost_def
      Join_Cons del: Join.simps)

end
